theory Spec2Isabelle
  imports Complex_Main "HOL-Library.Sublist"
begin

section \<open>The annotation canvas of Project Retina\<close>

text \<open>
  The page component keeps the annotation session in React refs and state:
  \<open>canvasRef\<close>, \<open>imgRef\<close>, \<open>isDrawingRef\<close>, \<open>lastPointRef\<close>, \<open>historyRef\<close>,
  \<open>redoRef\<close> and the two flags \<open>canUndo\<close>, \<open>canRedo\<close>. Each handler of the component is
  embedded as a function from the page state to the page state. The browser objects the
  handlers touch (the canvas element, its 2D context, the image element) are records
  holding what the handlers read and write.

  Numbers are JavaScript doubles. A finite double is a real number, and the numbers the
  page reads from the platform (event positions, box geometry, pen size) are of type
  \<open>real\<close>: comparison, \<open>Math.floor\<close>, \<open>Math.max\<close> and \<open>Math.min\<close> are exact on finite
  doubles. Where the code subtracts, divides and multiplies, in \<open>getCanvasPoint\<close>, the
  result is rounded to the nearest double or is not finite, and the model says so.
\<close>

subsection \<open>JavaScript numbers\<close>

text \<open>The value of an arithmetic expression: a finite double, an infinity or NaN.\<close>

datatype number = Finite real | PosInfinity | NegInfinity | NaN

text \<open>The binary exponent of a positive real: the \<open>e\<close> with \<open>2^e \<le> x < 2^(e+1)\<close>.\<close>

function ilogb :: "real \<Rightarrow> int" where
  "ilogb x =
     (if x \<le> 0 then 0
      else if 2 \<le> x then ilogb (x / 2) + 1
      else if x < 1 then ilogb (2 * x) - 1
      else 0)"
  by pat_completeness auto
termination
proof (relation "measure (\<lambda>x. nat \<bar>\<lfloor>log 2 x\<rfloor>\<bar>)")
  show "wf (measure (\<lambda>x. nat \<bar>\<lfloor>log 2 x\<rfloor>\<bar>))" by simp
next
  fix x :: real assume a: "\<not> x \<le> 0" "2 \<le> x"
  have "log 2 (x / 2) = log 2 x - 1" using a by (simp add: log_divide)
  then have h: "\<lfloor>log 2 (x / 2)\<rfloor> = \<lfloor>log 2 x\<rfloor> - 1" by simp
  have "log 2 2 \<le> log 2 x" using a by (subst log_le_cancel_iff) simp_all
  then have "1 \<le> log 2 x" by simp
  then have "1 \<le> \<lfloor>log 2 x\<rfloor>" by (simp add: le_floor_iff)
  then show "(x / 2, x) \<in> measure (\<lambda>x. nat \<bar>\<lfloor>log 2 x\<rfloor>\<bar>)"
    using h by simp
next
  fix x :: real assume a: "\<not> x \<le> 0" "\<not> 2 \<le> x" "x < 1"
  have "log 2 (2 * x) = 1 + log 2 x" using a by (simp add: log_mult)
  then have h: "\<lfloor>log 2 (2 * x)\<rfloor> = \<lfloor>log 2 x\<rfloor> + 1" by simp
  have "log 2 x < log 2 1" using a by (subst log_less_cancel_iff) simp_all
  then have "log 2 x < 0" by simp
  then have "\<lfloor>log 2 x\<rfloor> \<le> - 1" by (simp add: floor_le_iff)
  then show "(2 * x, x) \<in> measure (\<lambda>x. nat \<bar>\<lfloor>log 2 x\<rfloor>\<bar>)"
    using h by simp
qed

declare ilogb.simps [simp del]

text \<open>Rounding to the nearest integer, a tie going to the even one.\<close>

definition rne :: "real \<Rightarrow> int" where
  "rne y =
     (let f = \<lfloor>y\<rfloor>; d = y - of_int f
      in if d < 1 / 2 then f else if 1 / 2 < d then f + 1 else if even f then f else f + 1)"

text \<open>
  Rounding a real to binary64, to nearest and ties to even: 53 significant bits, the
  least exponent of a unit in the last place being -1074 (below it the doubles are
  subnormal), and overflow to an infinity from \<open>2^1024\<close> on. The sign of a zero is not
  kept: \<open>-0\<close> and \<open>0\<close> are equal in JavaScript.
\<close>

definition fl :: "real \<Rightarrow> number" where
  "fl x =
     (if x = 0 then Finite 0
      else
        let e = max (ilogb \<bar>x\<bar> - 52) (- 1074);
            y = of_int (rne (x / 2 powi e)) * 2 powi e
        in if 2 powi 1024 \<le> \<bar>y\<bar> then (if 0 < x then PosInfinity else NegInfinity)
           else Finite y)"

text \<open>
  The operators \<open>-\<close>, \<open>/\<close> and \<open>*\<close> as \<open>getCanvasPoint\<close> applies them: the difference and
  the quotient of two finite doubles (a zero divisor is the \<open>+0\<close> of an empty box), and
  the product of their results.
\<close>

definition num_sub :: "real \<Rightarrow> real \<Rightarrow> number" where
  "num_sub a b = fl (a - b)"

definition num_div :: "real \<Rightarrow> real \<Rightarrow> number" where
  "num_div a b =
     (if b = 0 then (if 0 < a then PosInfinity else if a < 0 then NegInfinity else NaN)
      else fl (a / b))"

fun num_mul :: "number \<Rightarrow> number \<Rightarrow> number" where
  "num_mul NaN _ = NaN"
| "num_mul _ NaN = NaN"
| "num_mul (Finite a) (Finite b) = fl (a * b)"
| "num_mul (Finite a) PosInfinity =
     (if a = 0 then NaN else if 0 < a then PosInfinity else NegInfinity)"
| "num_mul (Finite a) NegInfinity =
     (if a = 0 then NaN else if 0 < a then NegInfinity else PosInfinity)"
| "num_mul PosInfinity (Finite b) =
     (if b = 0 then NaN else if 0 < b then PosInfinity else NegInfinity)"
| "num_mul NegInfinity (Finite b) =
     (if b = 0 then NaN else if 0 < b then NegInfinity else PosInfinity)"
| "num_mul PosInfinity PosInfinity = PosInfinity"
| "num_mul PosInfinity NegInfinity = NegInfinity"
| "num_mul NegInfinity PosInfinity = NegInfinity"
| "num_mul NegInfinity NegInfinity = PosInfinity"


subsection \<open>Browser objects\<close>

type_synonym pixel = "nat \<times> nat \<times> nat \<times> nat"

definition transparent :: pixel where
  "transparent = (0, 0, 0, 0)"

record point =
  px :: number
  py :: number

record domrect =
  rect_left :: real
  rect_top :: real
  rect_width :: real
  rect_height :: real

record pointer_event =
  clientX :: real
  clientY :: real
  pointerId :: nat

text \<open>\<open>ImageData\<close>: a bitmap of \<open>iwidth * iheight\<close> pixels, row by row.\<close>

record ImageData =
  iwidth :: nat
  iheight :: nat
  idata :: "pixel list"

text \<open>The drawing state of a \<open>CanvasRenderingContext2D\<close> that the handlers set.\<close>

record context2d =
  strokeStyle :: string
  lineWidth :: real
  lineCap :: string
  lineJoin :: string

definition default_context :: context2d where
  "default_context =
     \<lparr>strokeStyle = ''#000000'', lineWidth = 1, lineCap = ''butt'', lineJoin = ''miter''\<rparr>"

text \<open>
  The canvas element: its \<open>width\<close> and \<open>height\<close> attributes, its bitmap (row by row), the
  context that \<open>getContext("2d")\<close> returns (\<open>None\<close> for \<open>null\<close>), the pointers it has
  captured, and the box that \<open>getBoundingClientRect()\<close> returns (the element is sized by
  CSS, so the box does not depend on the attributes).
\<close>

record canvas =
  cwidth :: nat
  cheight :: nat
  pixels :: "pixel list"
  ctx2d :: "context2d option"
  captures :: "nat set"
  crect :: domrect

record image_el =
  irect :: domrect

definition blank :: "nat \<Rightarrow> nat \<Rightarrow> pixel list" where
  "blank w h = replicate (w * h) transparent"

text \<open>Assigning \<open>canvas.width\<close> or \<open>canvas.height\<close> clears the bitmap and resets the context.\<close>

definition set_width :: "nat \<Rightarrow> canvas \<Rightarrow> canvas" where
  "set_width n c =
     c\<lparr>cwidth := n, pixels := blank n (cheight c),
       ctx2d := map_option (\<lambda>_. default_context) (ctx2d c)\<rparr>"

definition set_height :: "nat \<Rightarrow> canvas \<Rightarrow> canvas" where
  "set_height n c =
     c\<lparr>cheight := n, pixels := blank (cwidth c) n,
       ctx2d := map_option (\<lambda>_. default_context) (ctx2d c)\<rparr>"

text \<open>Assigning \<open>ctx.lineWidth\<close> is ignored by the platform unless the value is positive.\<close>

definition set_lineWidth :: "real \<Rightarrow> context2d \<Rightarrow> context2d" where
  "set_lineWidth v ctx = (if 0 < v then ctx\<lparr>lineWidth := v\<rparr> else ctx)"

text \<open>\<open>ctx.getImageData(0, 0, canvas.width, canvas.height)\<close>: a copy of the whole bitmap.\<close>

definition getImageData :: "canvas \<Rightarrow> ImageData" where
  "getImageData c = \<lparr>iwidth = cwidth c, iheight = cheight c, idata = pixels c\<rparr>"

text \<open>\<open>ctx.clearRect(0, 0, canvas.width, canvas.height)\<close>: every pixel transparent.\<close>

definition clearRect :: "canvas \<Rightarrow> canvas" where
  "clearRect c = c\<lparr>pixels := blank (cwidth c) (cheight c)\<rparr>"

text \<open>
  \<open>ctx.putImageData(img, 0, 0)\<close>: the pixels of \<open>img\<close> replace those of the canvas where
  the two bitmaps overlap; the rest of the canvas is left as it is.
\<close>

definition putImageData :: "ImageData \<Rightarrow> canvas \<Rightarrow> canvas" where
  "putImageData img c =
     c\<lparr>pixels :=
         map (\<lambda>i. if i mod cwidth c < iwidth img \<and> i div cwidth c < iheight img
                   then idata img ! (i div cwidth c * iwidth img + i mod cwidth c)
                   else pixels c ! i)
           [0 ..< cwidth c * cheight c]\<rparr>"

text \<open>
  What \<open>ctx.stroke()\<close> paints for a segment is the platform's rasterisation. It is a
  parameter of the model: from the context's style, the two end points, the size of the
  bitmap and the bitmap, it gives the new bitmap.
\<close>

type_synonym renderer =
  "context2d \<Rightarrow> point \<Rightarrow> point \<Rightarrow> nat \<Rightarrow> nat \<Rightarrow> pixel list \<Rightarrow> pixel list"

subsection \<open>The page state\<close>

record page =
  penColor :: string
  penSize :: real
  canUndo :: bool
  canRedo :: bool
  isPreviewOpen :: bool
  canvasRef :: "canvas option"
  imgRef :: "image_el option"
  isDrawingRef :: bool
  lastPointRef :: "point option"
  historyRef :: "ImageData list"
  redoRef :: "ImageData list"
  listenerPenSize :: real

text \<open>
  \<open>listenerPenSize\<close> is the pen size of the render whose effect registered the listener
  of the window's \<open>resize\<close> event: the listener is a closure of that render and keeps its
  \<open>penSize\<close>, whatever the pen size has become since.
\<close>

text \<open>The state of a freshly mounted component (no modal, hence no canvas and no image).\<close>

definition initial_page :: page where
  "initial_page =
     \<lparr>penColor = ''#2563eb'', penSize = 3, canUndo = False, canRedo = False,
      isPreviewOpen = False, canvasRef = None, imgRef = None, isDrawingRef = False,
      lastPointRef = None, historyRef = [], redoRef = [], listenerPenSize = 3\<rparr>"

text \<open>\<open>canvas?.getContext("2d")\<close>\<close>

definition getContext :: "canvas option \<Rightarrow> context2d option" where
  "getContext co = (case co of None \<Rightarrow> None | Some c \<Rightarrow> ctx2d c)"

text \<open>\<open>xs.at(-1)\<close>: the last element, or \<open>undefined\<close>.\<close>

definition at_last :: "'a list \<Rightarrow> 'a option" where
  "at_last xs = (if xs = [] then None else Some (last xs))"

subsection \<open>The handlers\<close>

definition nextWidth :: "image_el \<Rightarrow> nat" where
  "nextWidth img = nat (max 1 \<lfloor>rect_width (irect img)\<rfloor>)"

definition nextHeight :: "image_el \<Rightarrow> nat" where
  "nextHeight img = nat (max 1 \<lfloor>rect_height (irect img)\<rfloor>)"

text \<open>
  The body of \<open>syncCanvasSize\<close>, as the closure of a render whose pen size is \<open>pen\<close>.
\<close>

definition syncCanvasSizeOf :: "real \<Rightarrow> page \<Rightarrow> page" where
  "syncCanvasSizeOf pen s =
     (case canvasRef s of
        None \<Rightarrow> s
      | Some c \<Rightarrow>
          (case imgRef s of
             None \<Rightarrow> s
           | Some img \<Rightarrow>
               if cwidth c \<noteq> nextWidth img \<or> cheight c \<noteq> nextHeight img
               then
                 let c1 = set_width (nextWidth img) c;
                     c2 = set_height (nextHeight img) c1;
                     c3 = c2\<lparr>ctx2d := map_option (set_lineWidth pen) (ctx2d c2)\<rparr>
                 in s\<lparr>canvasRef := Some c3\<rparr>
               else s))"

text \<open>
  \<open>syncCanvasSize\<close> as the current render has it: the image's \<open>onLoad\<close> handler, and the
  call the effect makes when it runs.
\<close>

definition syncCanvasSize :: "page \<Rightarrow> page" where
  "syncCanvasSize s = syncCanvasSizeOf (penSize s) s"

definition getCanvasPoint :: "pointer_event \<Rightarrow> page \<Rightarrow> point" where
  "getCanvasPoint ev s =
     (case canvasRef s of
        None \<Rightarrow> \<lparr>px = Finite 0, py = Finite 0\<rparr>
      | Some c \<Rightarrow>
          \<lparr>px = num_mul (num_sub (clientX ev) (rect_left (crect c)))
                         (num_div (real (cwidth c)) (rect_width (crect c))),
           py = num_mul (num_sub (clientY ev) (rect_top (crect c)))
                         (num_div (real (cheight c)) (rect_height (crect c)))\<rparr>)"

definition handlePointerDown :: "pointer_event \<Rightarrow> page \<Rightarrow> page" where
  "handlePointerDown ev s =
     (case canvasRef s of
        None \<Rightarrow> s
      | Some c \<Rightarrow>
          let s1 = s\<lparr>canvasRef := Some (c\<lparr>captures := insert (pointerId ev) (captures c)\<rparr>)\<rparr>;
              s2 = s1\<lparr>isDrawingRef := True\<rparr>
          in s2\<lparr>lastPointRef := Some (getCanvasPoint ev s2)\<rparr>)"

definition handlePointerMove :: "renderer \<Rightarrow> pointer_event \<Rightarrow> page \<Rightarrow> page" where
  "handlePointerMove stroke ev s =
     (if \<not> isDrawingRef s then s
      else
        (case canvasRef s of
           None \<Rightarrow> s
         | Some c \<Rightarrow>
             (case getContext (canvasRef s) of
                None \<Rightarrow> s
              | Some ctx \<Rightarrow>
                  let nextPoint = getCanvasPoint ev s in
                  (case lastPointRef s of
                     None \<Rightarrow> s\<lparr>lastPointRef := Some nextPoint\<rparr>
                   | Some lastPoint \<Rightarrow>
                       let ctx1 = set_lineWidth (penSize s) (ctx\<lparr>strokeStyle := penColor s\<rparr>);
                           ctx2 = ctx1\<lparr>lineCap := ''round'', lineJoin := ''round''\<rparr>;
                           c1 = c\<lparr>ctx2d := Some ctx2,
                                 pixels := stroke ctx2 lastPoint nextPoint
                                             (cwidth c) (cheight c) (pixels c)\<rparr>
                       in s\<lparr>canvasRef := Some c1, lastPointRef := Some nextPoint\<rparr>))))"

definition releasePointerCapture :: "nat \<Rightarrow> canvas option \<Rightarrow> canvas option" where
  "releasePointerCapture pid co = map_option (\<lambda>c. c\<lparr>captures := captures c - {pid}\<rparr>) co"

definition handlePointerUp :: "pointer_event \<Rightarrow> page \<Rightarrow> page" where
  "handlePointerUp ev s =
     (let s1 = s\<lparr>canvasRef := releasePointerCapture (pointerId ev) (canvasRef s)\<rparr>;
          s2 = s1\<lparr>isDrawingRef := False, lastPointRef := None\<rparr>
      in case canvasRef s2 of
           None \<Rightarrow> s2
         | Some c \<Rightarrow>
             (case getContext (canvasRef s2) of
                None \<Rightarrow> s2
              | Some ctx \<Rightarrow>
                  let snapshot = getImageData c;
                      h = historyRef s2 @ [snapshot]
                  in s2\<lparr>historyRef := h, redoRef := [],
                        canUndo := (0 < length h), canRedo := False\<rparr>))"

definition clearCanvas :: "page \<Rightarrow> page" where
  "clearCanvas s =
     (case canvasRef s of
        None \<Rightarrow> s
      | Some c \<Rightarrow>
          (case getContext (canvasRef s) of
             None \<Rightarrow> s
           | Some ctx \<Rightarrow>
               s\<lparr>canvasRef := Some (clearRect c), historyRef := [], redoRef := [],
                 canUndo := False, canRedo := False\<rparr>))"

definition undoStroke :: "page \<Rightarrow> page" where
  "undoStroke s =
     (case canvasRef s of
        None \<Rightarrow> s
      | Some c \<Rightarrow>
          (case getContext (canvasRef s) of
             None \<Rightarrow> s
           | Some ctx \<Rightarrow>
               if length (historyRef s) = 0 then s
               else
                 let lst = last (historyRef s);
                     h = butlast (historyRef s);
                     r = redoRef s @ [lst];
                     c1 = clearRect c;
                     c2 = (case at_last h of None \<Rightarrow> c1 | Some previous \<Rightarrow> putImageData previous c1)
                 in s\<lparr>canvasRef := Some c2, historyRef := h, redoRef := r,
                       canUndo := (0 < length h), canRedo := (0 < length r)\<rparr>))"

definition redoStroke :: "page \<Rightarrow> page" where
  "redoStroke s =
     (case canvasRef s of
        None \<Rightarrow> s
      | Some c \<Rightarrow>
          (case getContext (canvasRef s) of
             None \<Rightarrow> s
           | Some ctx \<Rightarrow>
               if length (redoRef s) = 0 then s
               else
                 let nxt = last (redoRef s);
                     r = butlast (redoRef s);
                     h = historyRef s @ [nxt]
                 in s\<lparr>canvasRef := Some (putImageData nxt c), historyRef := h, redoRef := r,
                       canUndo := (0 < length h), canRedo := (0 < length r)\<rparr>))"

text \<open>
  The effect that runs when the preview opens or its image changes: it sizes the canvas,
  empties the history and registers \<open>handleResize\<close> as the listener of the window's
  \<open>resize\<close> event. The listener sizes the canvas only, with the \<open>syncCanvasSize\<close> of the
  render in which the effect ran.
\<close>

definition previewEffect :: "page \<Rightarrow> page" where
  "previewEffect s =
     (if \<not> isPreviewOpen s then s
      else (syncCanvasSize s)\<lparr>historyRef := [], redoRef := [],
                               canUndo := False, canRedo := False,
                               listenerPenSize := penSize s\<rparr>)"

definition handleResize :: "page \<Rightarrow> page" where
  "handleResize s = syncCanvasSizeOf (listenerPenSize s) s"

section \<open>The mapping of the classification response\<close>

text \<open>
  \<open>analyzeImage\<close> posts the file and maps the parsed response to the result it stores.
  The mapping is embedded as a function of the parsed response. A probability comes from
  JSON, so it is a number and never NaN; the code only compares and clamps it. Tag names
  are byte strings; \<open>toLowerCase\<close> folds the ASCII capitals.
\<close>

record prediction =
  tagName :: "string option"
  probability :: "real option"

record CustomVisionResponse =
  predictions :: "prediction list option"

datatype diagnosis_label = Normal | Pneumonia

record AnalysisResult =
  diagnosis :: diagnosis_label
  confidence :: real
  is_critical :: bool

text \<open>\<open>p.probability ?? 0\<close>\<close>

definition prob0 :: "prediction \<Rightarrow> real" where
  "prob0 p = (case probability p of None \<Rightarrow> 0 | Some v \<Rightarrow> v)"

text \<open>The comparator handed to \<open>sort\<close>: negative when \<open>a\<close> goes before \<open>b\<close>.\<close>

definition compareFn :: "prediction \<Rightarrow> prediction \<Rightarrow> real" where
  "compareFn a b = prob0 b - prob0 a"

text \<open>
  \<open>Array.prototype.sort\<close> is stable: elements that compare equal keep their order. The
  stable order is written as an insertion sort that goes through the array from its end.
\<close>

fun insert_cmp :: "('a \<Rightarrow> 'a \<Rightarrow> real) \<Rightarrow> 'a \<Rightarrow> 'a list \<Rightarrow> 'a list" where
  "insert_cmp cmp a [] = [a]"
| "insert_cmp cmp a (b # bs) =
     (if cmp a b \<le> 0 then a # b # bs else b # insert_cmp cmp a bs)"

fun sort_cmp :: "('a \<Rightarrow> 'a \<Rightarrow> real) \<Rightarrow> 'a list \<Rightarrow> 'a list" where
  "sort_cmp cmp [] = []"
| "sort_cmp cmp (a # as) = insert_cmp cmp a (sort_cmp cmp as)"

text \<open>\<open>[...(data.predictions ?? [])].sort(...)[0]\<close>\<close>

definition topPrediction :: "CustomVisionResponse \<Rightarrow> prediction option" where
  "topPrediction d =
     (case sort_cmp compareFn (case predictions d of None \<Rightarrow> [] | Some ps \<Rightarrow> ps) of
        [] \<Rightarrow> None
      | p # _ \<Rightarrow> Some p)"

definition toLowerChar :: "char \<Rightarrow> char" where
  "toLowerChar c =
     (let n = (of_char c :: nat) in if 65 \<le> n \<and> n \<le> 90 then char_of (n + 32) else c)"

definition toLowerCase :: "string \<Rightarrow> string" where
  "toLowerCase t = map toLowerChar t"

text \<open>\<open>s.includes(t)\<close>: \<open>t\<close> occurs in \<open>s\<close> as a contiguous run.\<close>

fun includes_str :: "string \<Rightarrow> string \<Rightarrow> bool" where
  "includes_str [] t = (t = [])"
| "includes_str (c # cs) t = (prefix t (c # cs) \<or> includes_str cs t)"

definition analyzeImage :: "CustomVisionResponse \<Rightarrow> AnalysisResult" where
  "analyzeImage d =
     (let top = topPrediction d;
          tag = toLowerCase
                  (case top of
                     None \<Rightarrow> ''Normal''
                   | Some p \<Rightarrow> (case tagName p of None \<Rightarrow> ''Normal'' | Some t \<Rightarrow> t));
          diag = (if includes_str tag ''pneumonia'' then Pneumonia else Normal);
          conf = max 0 (min 1 (case top of None \<Rightarrow> 0 | Some p \<Rightarrow> prob0 p))
      in \<lparr>diagnosis = diag, confidence = conf, is_critical = (diag = Pneumonia)\<rparr>)"

section \<open>Concrete pages\<close>

text \<open>
  A one-pixel canvas over a one-pixel image, after one committed stroke that left the
  pixel red: the snapshot of the stroke is on the undo stack.
\<close>

definition unit_rect :: domrect where
  "unit_rect = \<lparr>rect_left = 0, rect_top = 0, rect_width = 1, rect_height = 1\<rparr>"

definition red :: pixel where
  "red = (255, 0, 0, 255)"

definition blue :: pixel where
  "blue = (0, 0, 255, 255)"

definition red_canvas :: canvas where
  "red_canvas =
     \<lparr>cwidth = 1, cheight = 1, pixels = [red], ctx2d = Some default_context,
      captures = {}, crect = unit_rect\<rparr>"

definition red_snapshot :: ImageData where
  "red_snapshot = \<lparr>iwidth = 1, iheight = 1, idata = [red]\<rparr>"

definition page_after_stroke :: page where
  "page_after_stroke =
     \<lparr>penColor = ''#2563eb'', penSize = 3, canUndo = True, canRedo = False,
      isPreviewOpen = True, canvasRef = Some red_canvas,
      imgRef = Some \<lparr>irect = unit_rect\<rparr>, isDrawingRef = False,
      lastPointRef = None, historyRef = [red_snapshot], redoRef = [],
      listenerPenSize = 3\<rparr>"

text \<open>A pointer event at the corner of the canvas, and a renderer that paints blue.\<close>

definition corner_event :: pointer_event where
  "corner_event = \<lparr>clientX = 0, clientY = 0, pointerId = 1\<rparr>"

definition fill_blue :: renderer where
  "fill_blue ctx p q w h bitmap = replicate (w * h) blue"

text \<open>The same page when the image is shown two pixels wide (the window has grown).\<close>

definition page_image_grown :: page where
  "page_image_grown =
     page_after_stroke\<lparr>imgRef := Some \<lparr>irect = unit_rect\<lparr>rect_width := 2\<rparr>\<rparr>\<rparr>"

text \<open>The page after an undo: the red snapshot waits on the redo stack.\<close>

definition page_after_undo :: page where
  "page_after_undo = undoStroke page_after_stroke"

text \<open>The page when the platform gives the canvas no 2D context, in the middle of a stroke.\<close>

definition page_no_context :: page where
  "page_no_context =
     page_after_stroke\<lparr>canvasRef := Some (red_canvas\<lparr>ctx2d := None\<rparr>),
                       isDrawingRef := True,
                       lastPointRef := Some \<lparr>px = Finite 0, py = Finite 0\<rparr>\<rparr>"

text \<open>The page after a second stroke that left the pixel blue.\<close>

definition blue_snapshot :: ImageData where
  "blue_snapshot = \<lparr>iwidth = 1, iheight = 1, idata = [blue]\<rparr>"

definition page_two_strokes :: page where
  "page_two_strokes =
     page_after_stroke\<lparr>canvasRef := Some (red_canvas\<lparr>pixels := [blue]\<rparr>),
                       historyRef := [red_snapshot, blue_snapshot]\<rparr>"

text \<open>The page when the preview has just opened: a blank canvas and no history.\<close>

definition page_opened :: page where
  "page_opened =
     page_after_stroke\<lparr>canvasRef := Some (red_canvas\<lparr>pixels := [transparent]\<rparr>),
                       historyRef := [], canUndo := False\<rparr>"

text \<open>
  The page in the middle of a second stroke: the pointer went down and moved once, so the
  canvas already shows blue, and the stroke is not yet committed.
\<close>

definition page_mid_stroke :: page where
  "page_mid_stroke =
     handlePointerMove fill_blue corner_event (handlePointerDown corner_event page_after_stroke)"

text \<open>The page after two strokes and one undo: both stacks hold a snapshot.\<close>

definition page_both_stacks :: page where
  "page_both_stacks = page_after_stroke\<lparr>redoRef := [blue_snapshot], canRedo := True\<rparr>"

text \<open>The page when the image is shown 1.7 pixels wide and 0.3 pixels high.\<close>

definition page_image_fraction :: page where
  "page_image_fraction =
     page_after_stroke
       \<lparr>imgRef := Some \<lparr>irect = unit_rect\<lparr>rect_width := 17 / 10, rect_height := 3 / 10\<rparr>\<rparr>\<rparr>"







text \<open>Two responses of the classification service.\<close>

definition no_predictions :: CustomVisionResponse where
  "no_predictions = \<lparr>predictions = None\<rparr>"

definition two_predictions :: CustomVisionResponse where
  "two_predictions =
     \<lparr>predictions = Some
        [\<lparr>tagName = Some ''Normal'', probability = Some (1 / 5)\<rparr>,
         \<lparr>tagName = Some ''Viral PNEUMONIA'', probability = Some (3 / 2)\<rparr>]\<rparr>"

text \<open>The consistency of the two flags with the two stacks.\<close>

definition flags_ok :: "page \<Rightarrow> bool" where
  "flags_ok s \<longleftrightarrow> canUndo s = (historyRef s \<noteq> []) \<and> canRedo s = (redoRef s \<noteq> [])"

text \<open>A snapshot that has the size of the canvas and a pixel for each of its positions.\<close>

definition fits :: "ImageData \<Rightarrow> canvas \<Rightarrow> bool" where
  "fits img c \<longleftrightarrow>
     iwidth img = cwidth c \<and> iheight img = cheight c \<and>
     length (idata img) = cwidth c * cheight c"

section \<open>Facts about JavaScript numbers\<close>







text \<open>The double nearest to 1/49, and the double nearest to 24.5 times it.\<close>

lemma fl_49th: "fl (1 / 49) = Finite (5882252574524729 / 2 ^ 58)"
  by (simp add: fl_def rne_def Let_def ilogb.simps)

lemma fl_49th_times_half_49:
  "fl (49 / 2 * (5882252574524729 / 2 ^ 58)) = Finite (9007199254740991 / 2 ^ 54)"
  by (simp add: fl_def rne_def Let_def ilogb.simps)

lemma fl_half_49: "fl (49 / 2) = Finite (49 / 2)"
  by (simp add: fl_def rne_def Let_def ilogb.simps)

section \<open>Facts about the browser objects\<close>

lemma pixels_clearRect: "pixels (clearRect c) = replicate (cwidth c * cheight c) transparent"
  by (simp add: clearRect_def blank_def)

lemma clearRect_shape: "clearRect c = c\<lparr>pixels := pixels (clearRect c)\<rparr>"
  by (simp add: clearRect_def)

lemma putImageData_shape:
  "putImageData img (clearRect c) = c\<lparr>pixels := pixels (putImageData img (clearRect c))\<rparr>"
  by (simp add: clearRect_def putImageData_def)

text \<open>A snapshot of the canvas's own size replaces the whole bitmap.\<close>

lemma putImageData_fits:
  assumes "fits img c"
  shows "pixels (putImageData img c) = idata img"
proof -
  have len: "length (idata img) = cwidth c * cheight c"
    and w: "iwidth img = cwidth c" and h: "iheight img = cheight c"
    using assms by (simp_all add: fits_def)
  have "map (\<lambda>i. if i mod cwidth c < iwidth img \<and> i div cwidth c < iheight img
                   then idata img ! (i div cwidth c * iwidth img + i mod cwidth c)
                   else pixels c ! i) [0 ..< cwidth c * cheight c]
        = map (\<lambda>i. idata img ! i) [0 ..< cwidth c * cheight c]"
  proof (rule map_cong[OF refl])
    fix i assume "i \<in> set [0 ..< cwidth c * cheight c]"
    then have i: "i < cwidth c * cheight c" by simp
    then have wpos: "0 < cwidth c" by (cases "cwidth c") auto
    have "i mod cwidth c < cwidth c" using wpos by simp
    moreover have "i div cwidth c < cheight c" using i wpos
      by (simp add: less_mult_imp_div_less mult.commute)
    ultimately show "(if i mod cwidth c < iwidth img \<and> i div cwidth c < iheight img
                   then idata img ! (i div cwidth c * iwidth img + i mod cwidth c)
                   else pixels c ! i) = idata img ! i"
      using w h by simp
  qed
  also have "\<dots> = idata img" using len by (metis map_nth)
  finally show ?thesis by (simp add: putImageData_def)
qed

lemma putImageData_fits_eq:
  assumes "fits img c"
  shows "putImageData img c = c\<lparr>pixels := idata img\<rparr>"
proof -
  have "putImageData img c = c\<lparr>pixels := pixels (putImageData img c)\<rparr>"
    by (simp add: putImageData_def)
  then show ?thesis using putImageData_fits[OF assms] by simp
qed

lemma fits_getImageData:
  "length (pixels c) = cwidth c * cheight c \<Longrightarrow> fits (getImageData c) c"
  by (simp add: fits_def getImageData_def)

section \<open>Facts about the handlers\<close>

lemma undoStroke_canvas:
  assumes "canvasRef s = Some c" "ctx2d c = Some ctx" "historyRef s \<noteq> []"
  shows "canvasRef (undoStroke s) =
     Some (case at_last (butlast (historyRef s)) of
             None \<Rightarrow> clearRect c
           | Some previous \<Rightarrow> putImageData previous (clearRect c))"
  using assms by (simp add: undoStroke_def getContext_def Let_def)

lemma undoStroke_canvas_shape:
  assumes "canvasRef s = Some c" "ctx2d c = Some ctx" "historyRef s \<noteq> []"
  shows "\<exists>bitmap. canvasRef (undoStroke s) = Some (c\<lparr>pixels := bitmap\<rparr>)"
proof (cases "at_last (butlast (historyRef s))")
  case None
  then show ?thesis
    using undoStroke_canvas[OF assms] clearRect_shape[of c] by (metis option.simps(4))
next
  case (Some previous)
  then show ?thesis
    using undoStroke_canvas[OF assms] putImageData_shape[of previous c]
    by (metis option.simps(5))
qed

lemma undoStroke_stacks:
  assumes "canvasRef s = Some c" "ctx2d c = Some ctx" "historyRef s \<noteq> []"
  shows "undoStroke s =
     s\<lparr>canvasRef := canvasRef (undoStroke s), historyRef := butlast (historyRef s),
       redoRef := redoRef s @ [last (historyRef s)],
       canUndo := (butlast (historyRef s) \<noteq> []), canRedo := True\<rparr>"
  using assms by (simp add: undoStroke_def getContext_def Let_def)

lemma undoStroke_empty: "historyRef s = [] \<Longrightarrow> undoStroke s = s"
  by (simp add: undoStroke_def split: option.splits)

lemma redoStroke_empty: "redoRef s = [] \<Longrightarrow> redoStroke s = s"
  by (simp add: redoStroke_def split: option.splits)

text \<open>Sizing the canvas never touches the stacks or the flags.\<close>

lemma syncCanvasSizeOf_history:
  "historyRef (syncCanvasSizeOf pen s) = historyRef s
   \<and> redoRef (syncCanvasSizeOf pen s) = redoRef s
   \<and> canUndo (syncCanvasSizeOf pen s) = canUndo s
   \<and> canRedo (syncCanvasSizeOf pen s) = canRedo s"
  by (simp add: syncCanvasSizeOf_def Let_def split: option.splits)

lemma syncCanvasSize_history:
  "historyRef (syncCanvasSize s) = historyRef s \<and> redoRef (syncCanvasSize s) = redoRef s
   \<and> canUndo (syncCanvasSize s) = canUndo s \<and> canRedo (syncCanvasSize s) = canRedo s"
  by (simp add: syncCanvasSize_def syncCanvasSizeOf_history)

lemma handleResize_history:
  "historyRef (handleResize s) = historyRef s \<and> redoRef (handleResize s) = redoRef s
   \<and> canUndo (handleResize s) = canUndo s \<and> canRedo (handleResize s) = canRedo s"
  by (simp add: handleResize_def syncCanvasSizeOf_history)

text \<open>The effect of opening the preview does empty them.\<close>

lemma previewEffect_resets:
  "isPreviewOpen s \<Longrightarrow>
     historyRef (previewEffect s) = [] \<and> redoRef (previewEffect s) = []
     \<and> \<not> canUndo (previewEffect s) \<and> \<not> canRedo (previewEffect s)"
  by (simp add: previewEffect_def)

text \<open>
  The two flags agree with the two stacks when the component mounts, and every handler
  keeps them so.
\<close>

lemma flags_ok_initial: "flags_ok initial_page"
  by (simp add: flags_ok_def initial_page_def)

lemma flags_ok_handlePointerDown: "flags_ok s \<Longrightarrow> flags_ok (handlePointerDown ev s)"
  by (simp add: flags_ok_def handlePointerDown_def Let_def split: option.splits)

lemma flags_ok_handlePointerMove: "flags_ok s \<Longrightarrow> flags_ok (handlePointerMove stroke ev s)"
  by (simp add: flags_ok_def handlePointerMove_def Let_def split: option.splits)

lemma flags_ok_handlePointerUp: "flags_ok s \<Longrightarrow> flags_ok (handlePointerUp ev s)"
  by (simp add: flags_ok_def handlePointerUp_def Let_def split: option.splits)

lemma flags_ok_clearCanvas: "flags_ok s \<Longrightarrow> flags_ok (clearCanvas s)"
  by (simp add: flags_ok_def clearCanvas_def split: option.splits)

lemma flags_ok_undoStroke: "flags_ok s \<Longrightarrow> flags_ok (undoStroke s)"
  by (simp add: flags_ok_def undoStroke_def Let_def split: option.splits)

lemma flags_ok_redoStroke: "flags_ok s \<Longrightarrow> flags_ok (redoStroke s)"
  by (simp add: flags_ok_def redoStroke_def Let_def split: option.splits)

lemma flags_ok_syncCanvasSize: "flags_ok s \<Longrightarrow> flags_ok (syncCanvasSize s)"
  using syncCanvasSize_history[of s] by (simp add: flags_ok_def)

lemma flags_ok_previewEffect: "flags_ok s \<Longrightarrow> flags_ok (previewEffect s)"
  by (simp add: flags_ok_def previewEffect_def)

text \<open>
  After a pointer-up on a mounted canvas, the canvas shows exactly the snapshot on top of
  the undo stack.
\<close>

lemma handlePointerUp_top_is_canvas:
  assumes "canvasRef s = Some c" "ctx2d c = Some ctx"
  shows "\<exists>c'. canvasRef (handlePointerUp ev s) = Some c'
            \<and> historyRef (handlePointerUp ev s) \<noteq> []
            \<and> last (historyRef (handlePointerUp ev s)) = getImageData c'"
  using assms
  by (simp add: handlePointerUp_def releasePointerCapture_def getContext_def Let_def)

text \<open>So it is after an undo or a redo that draws a snapshot of the canvas's size.\<close>

lemma undoStroke_top_is_canvas:
  assumes "canvasRef s = Some c" "ctx2d c = Some ctx" "butlast (historyRef s) \<noteq> []"
    "fits (last (butlast (historyRef s))) c"
  shows "\<exists>c'. canvasRef (undoStroke s) = Some c'
            \<and> historyRef (undoStroke s) \<noteq> []
            \<and> last (historyRef (undoStroke s)) = getImageData c'"
proof -
  let ?p = "last (butlast (historyRef s))"
  have h: "historyRef s \<noteq> []" using assms(3) by auto
  have f: "fits ?p (clearRect c)" using assms(4) by (simp add: fits_def clearRect_def)
  have "canvasRef (undoStroke s) = Some (putImageData ?p (clearRect c))"
    using undoStroke_canvas[OF assms(1,2) h] assms(3) by (simp add: at_last_def)
  moreover have "historyRef (undoStroke s) = butlast (historyRef s)"
    using assms(1,2) h by (simp add: undoStroke_def getContext_def Let_def)
  moreover have "getImageData (putImageData ?p (clearRect c)) = ?p"
    using f by (simp add: putImageData_fits_eq getImageData_def fits_def)
  ultimately show ?thesis using assms(3) by simp
qed

lemma redoStroke_top_is_canvas:
  assumes "canvasRef s = Some c" "ctx2d c = Some ctx" "redoRef s \<noteq> []"
    "fits (last (redoRef s)) c"
  shows "\<exists>c'. canvasRef (redoStroke s) = Some c'
            \<and> historyRef (redoStroke s) \<noteq> []
            \<and> last (historyRef (redoStroke s)) = getImageData c'"
  using assms
  by (simp add: redoStroke_def getContext_def Let_def putImageData_fits_eq getImageData_def
      fits_def)

text \<open>
  \<open>handlePointerUp\<close> overwrites \<open>isDrawingRef\<close> and never reads it: its result is the same
  whether a stroke was in progress or not.
\<close>

lemma handlePointerUp_ignores_isDrawingRef:
  "handlePointerUp ev (s\<lparr>isDrawingRef := b\<rparr>) = handlePointerUp ev s"
  by (simp add: handlePointerUp_def Let_def split: option.splits)

text \<open>The bitmap keeps one pixel for each position of the canvas.\<close>

lemma length_putImageData:
  "length (pixels (putImageData img c)) = cwidth c * cheight c"
  by (simp add: putImageData_def)

lemma length_clearRect: "length (pixels (clearRect c)) = cwidth c * cheight c"
  by (simp add: clearRect_def blank_def)

lemma syncCanvasSize_bitmap:
  assumes "canvasRef s = Some c" "length (pixels c) = cwidth c * cheight c"
  shows "\<exists>c'. canvasRef (syncCanvasSize s) = Some c'
           \<and> length (pixels c') = cwidth c' * cheight c'"
  using assms
  by (simp add: syncCanvasSize_def syncCanvasSizeOf_def Let_def set_width_def set_height_def
      blank_def split: option.splits)


section \<open>The coordinate mapper\<close>



text \<open>An empty box: the quotient is infinite, and the corner of the box maps to NaN.\<close>

lemma getCanvasPoint_empty_box:
  "getCanvasPoint corner_event
     (page_after_stroke\<lparr>canvasRef := Some (red_canvas\<lparr>crect := unit_rect\<lparr>rect_width := 0\<rparr>\<rparr>)\<rparr>)
   = \<lparr>px = NaN, py = Finite 0\<rparr>"
  by (simp add: getCanvasPoint_def corner_event_def red_canvas_def unit_rect_def
      num_sub_def num_div_def fl_def rne_def Let_def ilogb.simps)




section \<open>The history stack\<close>

text \<open>
  Claim C4. Every push of a new snapshot, which is what a pointer-up does on a mounted
  canvas with a 2D context, appends the snapshot of the canvas to the undo stack and
  empties the redo stack, so \<open>canRedo\<close> is false afterwards whatever it was before.
\<close>

theorem handlePointerUp_push_clears_redo:
  assumes "canvasRef s = Some c" "ctx2d c = Some ctx"
  shows "historyRef (handlePointerUp ev s) = historyRef s @ [getImageData c]
       \<and> redoRef (handlePointerUp ev s) = []
       \<and> canRedo (handlePointerUp ev s) = False"
  using assms
  by (simp add: handlePointerUp_def releasePointerCapture_def getContext_def Let_def
      getImageData_def)

text \<open>The page after an undo has a pending redo; a pointer-up discards it.\<close>

theorem handlePointerUp_push_clears_redo_witness:
  "canRedo page_after_undo \<and> redoRef page_after_undo = [red_snapshot]
   \<and> historyRef (handlePointerUp corner_event page_after_undo)
       = [\<lparr>iwidth = 1, iheight = 1, idata = [transparent]\<rparr>]
   \<and> redoRef (handlePointerUp corner_event page_after_undo) = []
   \<and> canRedo (handlePointerUp corner_event page_after_undo) = False"
proof -
  have c: "canvasRef page_after_undo = Some (red_canvas\<lparr>pixels := [transparent]\<rparr>)"
    by (simp add: page_after_undo_def page_after_stroke_def undoStroke_def getContext_def
        red_canvas_def Let_def at_last_def clearRect_def blank_def)
  have x: "ctx2d (red_canvas\<lparr>pixels := [transparent]\<rparr>) = Some default_context"
    by (simp add: red_canvas_def)
  have r: "canRedo page_after_undo \<and> redoRef page_after_undo = [red_snapshot]
           \<and> historyRef page_after_undo = []"
    by (simp add: page_after_undo_def page_after_stroke_def undoStroke_def getContext_def
        red_canvas_def Let_def)
  show ?thesis
    using handlePointerUp_push_clears_redo[OF c x, of corner_event] r
    by (simp add: getImageData_def red_canvas_def)
qed

text \<open>
  Claim C5. With the canvas mounted and its context available, \<open>undoStroke\<close> on a
  non-empty undo stack removes the last snapshot from the undo stack, appends it to the
  redo stack, and leaves on the canvas the new last snapshot drawn over a cleared bitmap,
  or the cleared bitmap alone when the undo stack has become empty. A snapshot of the
  canvas's size then is the whole bitmap. On an empty undo stack \<open>undoStroke\<close> changes
  nothing, whether a canvas is mounted or not.
\<close>

theorem undoStroke_pops_and_renders:
  "(canvasRef s = Some c \<longrightarrow> ctx2d c = Some ctx \<longrightarrow> historyRef s \<noteq> [] \<longrightarrow>
      historyRef (undoStroke s) = butlast (historyRef s)
    \<and> redoRef (undoStroke s) = redoRef s @ [last (historyRef s)]
    \<and> canvasRef (undoStroke s) =
        Some (if butlast (historyRef s) = [] then clearRect c
              else putImageData (last (butlast (historyRef s))) (clearRect c))
    \<and> (butlast (historyRef s) = [] \<longrightarrow>
         map_option pixels (canvasRef (undoStroke s))
           = Some (replicate (cwidth c * cheight c) transparent))
    \<and> (butlast (historyRef s) \<noteq> [] \<longrightarrow> fits (last (butlast (historyRef s))) c \<longrightarrow>
         map_option pixels (canvasRef (undoStroke s))
           = Some (idata (last (butlast (historyRef s))))))
   \<and> (historyRef s = [] \<longrightarrow> undoStroke s = s)"
proof (intro conjI impI)
  assume a: "canvasRef s = Some c" "ctx2d c = Some ctx" "historyRef s \<noteq> []"
  show "historyRef (undoStroke s) = butlast (historyRef s)"
    using a by (simp add: undoStroke_def getContext_def Let_def)
  show "redoRef (undoStroke s) = redoRef s @ [last (historyRef s)]"
    using a by (simp add: undoStroke_def getContext_def Let_def)
  show cv: "canvasRef (undoStroke s) =
        Some (if butlast (historyRef s) = [] then clearRect c
              else putImageData (last (butlast (historyRef s))) (clearRect c))"
    using undoStroke_canvas[OF a] by (simp add: at_last_def)
  {
    assume "butlast (historyRef s) = []"
    then show "map_option pixels (canvasRef (undoStroke s))
           = Some (replicate (cwidth c * cheight c) transparent)"
      using cv by (simp add: pixels_clearRect)
  }
  {
    assume b: "butlast (historyRef s) \<noteq> []" and f: "fits (last (butlast (historyRef s))) c"
    have "fits (last (butlast (historyRef s))) (clearRect c)"
      using f by (simp add: fits_def clearRect_def)
    then show "map_option pixels (canvasRef (undoStroke s))
           = Some (idata (last (butlast (historyRef s))))"
      using cv b by (simp add: putImageData_fits)
  }
next
  assume "historyRef s = []"
  then show "undoStroke s = s" by (rule undoStroke_empty)
qed

text \<open>The three cases at concrete pages: two snapshots, one snapshot, none.\<close>

theorem undoStroke_pops_and_renders_witness:
  "historyRef (undoStroke page_two_strokes) = [red_snapshot]
   \<and> redoRef (undoStroke page_two_strokes) = [blue_snapshot]
   \<and> map_option pixels (canvasRef (undoStroke page_two_strokes)) = Some [red]
   \<and> historyRef (undoStroke page_after_stroke) = []
   \<and> redoRef (undoStroke page_after_stroke) = [red_snapshot]
   \<and> map_option pixels (canvasRef (undoStroke page_after_stroke)) = Some [transparent]
   \<and> undoStroke page_opened = page_opened"
proof -
  have two: "canvasRef page_two_strokes = Some (red_canvas\<lparr>pixels := [blue]\<rparr>)"
    "ctx2d (red_canvas\<lparr>pixels := [blue]\<rparr>) = Some default_context"
    "historyRef page_two_strokes = [red_snapshot, blue_snapshot]"
    "redoRef page_two_strokes = []"
    "fits red_snapshot (red_canvas\<lparr>pixels := [blue]\<rparr>)"
    by (simp_all add: page_two_strokes_def page_after_stroke_def red_canvas_def fits_def
        red_snapshot_def)
  have one: "canvasRef page_after_stroke = Some red_canvas"
    "ctx2d red_canvas = Some default_context"
    "historyRef page_after_stroke = [red_snapshot]"
    "redoRef page_after_stroke = []"
    "cwidth red_canvas * cheight red_canvas = 1"
    by (simp_all add: page_after_stroke_def red_canvas_def)
  have none: "historyRef page_opened = []"
    by (simp add: page_opened_def page_after_stroke_def)
  have "historyRef (undoStroke page_two_strokes) = [red_snapshot]
   \<and> redoRef (undoStroke page_two_strokes) = [blue_snapshot]
   \<and> map_option pixels (canvasRef (undoStroke page_two_strokes)) = Some [red]"
    using undoStroke_pops_and_renders
            [of page_two_strokes "red_canvas\<lparr>pixels := [blue]\<rparr>" default_context] two
    by (auto simp add: red_snapshot_def)
  moreover have "historyRef (undoStroke page_after_stroke) = []
   \<and> redoRef (undoStroke page_after_stroke) = [red_snapshot]
   \<and> map_option pixels (canvasRef (undoStroke page_after_stroke)) = Some [transparent]"
    using undoStroke_pops_and_renders [of page_after_stroke red_canvas default_context] one
    by auto
  moreover have "undoStroke page_opened = page_opened"
    using undoStroke_pops_and_renders [of page_opened] none by simp
  ultimately show ?thesis by simp
qed

text \<open>
  Claim C6. With the canvas mounted and its context available, \<open>clearCanvas\<close> empties both
  stacks, sets both flags to false and makes every pixel of the canvas transparent,
  whatever the stacks and the bitmap were. Nothing is left to undo or redo: both are
  without effect on the cleared page.
\<close>

theorem clearCanvas_hard_reset:
  assumes "canvasRef s = Some c" "ctx2d c = Some ctx"
  shows "historyRef (clearCanvas s) = [] \<and> redoRef (clearCanvas s) = []
       \<and> canUndo (clearCanvas s) = False \<and> canRedo (clearCanvas s) = False
       \<and> canvasRef (clearCanvas s)
           = Some (c\<lparr>pixels := replicate (cwidth c * cheight c) transparent\<rparr>)
       \<and> undoStroke (clearCanvas s) = clearCanvas s
       \<and> redoStroke (clearCanvas s) = clearCanvas s"
  using assms
  by (simp add: clearCanvas_def getContext_def clearRect_def blank_def undoStroke_def
      redoStroke_def)

theorem clearCanvas_hard_reset_witness:
  "canUndo page_both_stacks \<and> canRedo page_both_stacks
   \<and> historyRef (clearCanvas page_both_stacks) = []
   \<and> redoRef (clearCanvas page_both_stacks) = []
   \<and> canUndo (clearCanvas page_both_stacks) = False
   \<and> canRedo (clearCanvas page_both_stacks) = False
   \<and> map_option pixels (canvasRef (clearCanvas page_both_stacks)) = Some [transparent]
   \<and> undoStroke (clearCanvas page_both_stacks) = clearCanvas page_both_stacks"
proof -
  have h: "canvasRef page_both_stacks = Some red_canvas"
    "ctx2d red_canvas = Some default_context"
    "canUndo page_both_stacks" "canRedo page_both_stacks"
    "cwidth red_canvas * cheight red_canvas = 1"
    by (simp_all add: page_both_stacks_def page_after_stroke_def red_canvas_def)
  show ?thesis
    using clearCanvas_hard_reset [OF h(1,2)] h(3,4,5) by auto
qed

text \<open>
  Claim C3, as the code has it. \<open>undoStroke\<close> and \<open>redoStroke\<close> restore snapshots; they do
  not record the bitmap they replace. So the round trip gives back the bitmap that was on
  the canvas only when that bitmap is the snapshot on top of the undo stack, which is the
  case after every committed stroke, undo and redo. Then, in a page whose flags agree
  with its stacks, an undo followed at once by a redo gives back the whole page: the
  bitmap, both stacks and both flags.
\<close>

theorem undo_then_redo_restores:
  assumes "canvasRef s = Some c" "historyRef s \<noteq> []"
    "getImageData c = last (historyRef s)" "length (pixels c) = cwidth c * cheight c"
    "flags_ok s"
  shows "redoStroke (undoStroke s) = s"
proof (cases "ctx2d c")
  case None
  then show ?thesis
    using assms(1) by (simp add: undoStroke_def redoStroke_def getContext_def)
next
  case (Some ctx)
  let ?l = "last (historyRef s)"
  obtain bitmap where u: "canvasRef (undoStroke s) = Some (c\<lparr>pixels := bitmap\<rparr>)"
    using undoStroke_canvas_shape[OF assms(1) Some assms(2)] by blast
  have l: "idata ?l = pixels c" "iwidth ?l = cwidth c" "iheight ?l = cheight c"
    by (simp_all add: getImageData_def flip: assms(3))
  have "fits ?l (c\<lparr>pixels := bitmap\<rparr>)"
    using l assms(4) by (simp add: fits_def)
  then have p: "putImageData ?l (c\<lparr>pixels := bitmap\<rparr>) = c"
    using l by (simp add: putImageData_fits_eq)
  have st: "undoStroke s =
     s\<lparr>canvasRef := Some (c\<lparr>pixels := bitmap\<rparr>), historyRef := butlast (historyRef s),
       redoRef := redoRef s @ [?l],
       canUndo := (butlast (historyRef s) \<noteq> []), canRedo := True\<rparr>"
    using undoStroke_stacks[OF assms(1) Some assms(2)] u by simp
  have "redoStroke (undoStroke s) =
     s\<lparr>canvasRef := Some c, historyRef := historyRef s, redoRef := redoRef s,
       canUndo := True, canRedo := (redoRef s \<noteq> [])\<rparr>"
    unfolding st using Some p assms(2)
    by (simp add: redoStroke_def getContext_def Let_def)
  also have "\<dots> = s"
    using assms(1,2,5) by (simp add: flags_ok_def)
  finally show ?thesis .
qed

theorem undo_then_redo_restores_witness:
  "historyRef page_after_stroke \<noteq> [] \<and> flags_ok page_after_stroke
   \<and> redoStroke (undoStroke page_after_stroke) = page_after_stroke"
proof -
  have h: "canvasRef page_after_stroke = Some red_canvas"
    "historyRef page_after_stroke \<noteq> []"
    "getImageData red_canvas = last (historyRef page_after_stroke)"
    "length (pixels red_canvas) = cwidth red_canvas * cheight red_canvas"
    "flags_ok page_after_stroke"
    by (simp_all add: page_after_stroke_def red_canvas_def red_snapshot_def getImageData_def
        flags_ok_def)
  show ?thesis
    using undo_then_redo_restores [OF h] h(2,5) by simp
qed

text \<open>
  In the middle of a stroke the canvas is blue and the snapshot on top of the undo stack
  is red: after an undo and a redo the canvas is red, not blue.
\<close>

theorem undo_then_redo_counterexample:
  "historyRef page_mid_stroke \<noteq> []
   \<and> map_option pixels (canvasRef page_mid_stroke) = Some [blue]
   \<and> map_option pixels (canvasRef (redoStroke (undoStroke page_mid_stroke))) = Some [red]
   \<and> blue \<noteq> red"
  by (simp add: page_mid_stroke_def page_after_stroke_def red_canvas_def red_snapshot_def
      handlePointerMove_def handlePointerDown_def
      fill_blue_def undoStroke_def redoStroke_def getContext_def Let_def clearRect_def
      putImageData_def blank_def at_last_def set_lineWidth_def default_context_def
      unit_rect_def red_def blue_def transparent_def)

section \<open>The stroke lifecycle\<close>

text \<open>
  Claim C8. \<open>handlePointerUp\<close> always leaves the session idle with no last sample. When
  no canvas is mounted, or the canvas has no 2D context, it takes no snapshot: both stacks
  and both flags stay as they were. A pointer-move that follows changes nothing, so it
  draws nothing.
\<close>

theorem handlePointerUp_always_idle:
  "isDrawingRef (handlePointerUp ev s) = False
   \<and> lastPointRef (handlePointerUp ev s) = None
   \<and> ((canvasRef s = None \<or> (\<exists>c. canvasRef s = Some c \<and> ctx2d c = None)) \<longrightarrow>
        historyRef (handlePointerUp ev s) = historyRef s
      \<and> redoRef (handlePointerUp ev s) = redoRef s
      \<and> canUndo (handlePointerUp ev s) = canUndo s
      \<and> canRedo (handlePointerUp ev s) = canRedo s)
   \<and> handlePointerMove stroke ev' (handlePointerUp ev s) = handlePointerUp ev s"
  by (auto simp add: handlePointerUp_def releasePointerCapture_def getContext_def Let_def
      handlePointerMove_def split: option.splits)

theorem handlePointerUp_always_idle_witness:
  "isDrawingRef page_no_context \<and> lastPointRef page_no_context \<noteq> None
   \<and> isDrawingRef (handlePointerUp corner_event page_no_context) = False
   \<and> lastPointRef (handlePointerUp corner_event page_no_context) = None
   \<and> historyRef (handlePointerUp corner_event page_no_context) = [red_snapshot]
   \<and> redoRef (handlePointerUp corner_event page_no_context) = []
   \<and> canUndo (handlePointerUp corner_event page_no_context) = True
   \<and> canRedo (handlePointerUp corner_event page_no_context) = False
   \<and> handlePointerMove fill_blue corner_event (handlePointerUp corner_event page_no_context)
       = handlePointerUp corner_event page_no_context"
proof -
  have h: "\<exists>c. canvasRef page_no_context = Some c \<and> ctx2d c = None"
    "isDrawingRef page_no_context" "lastPointRef page_no_context \<noteq> None"
    "historyRef page_no_context = [red_snapshot]" "redoRef page_no_context = []"
    "canUndo page_no_context = True" "canRedo page_no_context = False"
    by (simp_all add: page_no_context_def page_after_stroke_def)
  show ?thesis
    using handlePointerUp_always_idle [of corner_event page_no_context fill_blue corner_event] h
    by simp
qed

text \<open>
  Claim C9. When the width and height of the image's box, floored and raised to at least
  1, are the width and height of the canvas, \<open>syncCanvasSize\<close> changes nothing: the page,
  and with it the size and the bitmap of the canvas, is as before.
\<close>

theorem syncCanvasSize_same_size_noop:
  assumes "canvasRef s = Some c" "imgRef s = Some img"
    "cwidth c = nextWidth img" "cheight c = nextHeight img"
  shows "syncCanvasSize s = s"
  using assms by (simp add: syncCanvasSize_def syncCanvasSizeOf_def)

theorem syncCanvasSize_same_size_noop_witness:
  "map_option nextWidth (imgRef page_image_fraction) = Some 1
   \<and> map_option nextHeight (imgRef page_image_fraction) = Some 1
   \<and> map_option cwidth (canvasRef page_image_fraction) = Some 1
   \<and> map_option cheight (canvasRef page_image_fraction) = Some 1
   \<and> syncCanvasSize page_image_fraction = page_image_fraction"
proof -
  let ?img = "\<lparr>irect = unit_rect\<lparr>rect_width := 17 / 10, rect_height := 3 / 10\<rparr>\<rparr>"
  have h: "canvasRef page_image_fraction = Some red_canvas"
    "imgRef page_image_fraction = Some ?img"
    by (simp_all add: page_image_fraction_def page_after_stroke_def)
  have n: "nextWidth ?img = 1" "nextHeight ?img = 1" "cwidth red_canvas = 1"
    "cheight red_canvas = 1"
    by (simp_all add: nextWidth_def nextHeight_def unit_rect_def red_canvas_def)
  show ?thesis
    using syncCanvasSize_same_size_noop [OF h] n h by simp
qed

text \<open>
  Claim C1 says that a pointer-up (or pointer-leave, which runs the same handler) in an
  idle session does nothing, so that one stroke pushes one snapshot. \<open>handlePointerUp\<close>
  does not look at \<open>isDrawingRef\<close>, as \<open>handlePointerMove\<close> does: on the idle page that has
  just opened it pushes a snapshot, and a stroke that ends with a pointer-up followed by
  a pointer-leave pushes two.
\<close>

theorem handlePointerUp_idle_pushes_snapshot:
  "isDrawingRef page_opened = False \<and> historyRef page_opened = []
   \<and> historyRef (handlePointerUp corner_event page_opened)
       = [\<lparr>iwidth = 1, iheight = 1, idata = [transparent]\<rparr>]
   \<and> canUndo (handlePointerUp corner_event page_opened) = True
   \<and> historyRef (handlePointerUp corner_event (handlePointerUp corner_event
        (handlePointerMove fill_blue corner_event
          (handlePointerDown corner_event page_opened))))
       = [blue_snapshot, blue_snapshot]"
  by (simp add: page_opened_def page_after_stroke_def red_canvas_def blue_snapshot_def
      handlePointerUp_def handlePointerMove_def handlePointerDown_def
      releasePointerCapture_def corner_event_def fill_blue_def getContext_def Let_def
      getImageData_def set_lineWidth_def default_context_def unit_rect_def)

text \<open>
  Claim C2 says that the stacks are empty and both flags false after every resize of the
  canvas. The effect that opens the preview empties them (\<open>previewEffect_resets\<close>), but
  the listener of the window's resize event, \<open>handleResize\<close>, only sizes the canvas: when
  the image has grown, the canvas is resized and cleared while the snapshot of the old
  size stays on the undo stack and \<open>canUndo\<close> stays true.
\<close>

theorem handleResize_keeps_history:
  "map_option cwidth (canvasRef page_image_grown) = Some 1
   \<and> map_option cwidth (canvasRef (handleResize page_image_grown)) = Some 2
   \<and> map_option pixels (canvasRef (handleResize page_image_grown))
       = Some [transparent, transparent]
   \<and> historyRef (handleResize page_image_grown) = [red_snapshot]
   \<and> canUndo (handleResize page_image_grown) = True"
  by (simp add: handleResize_def syncCanvasSizeOf_def page_image_grown_def
      page_after_stroke_def red_canvas_def nextWidth_def nextHeight_def unit_rect_def
      set_width_def set_height_def blank_def Let_def numeral_2_eq_2)

section \<open>The classification result\<close>

lemma set_insert_cmp: "set (insert_cmp cmp a bs) = insert a (set bs)"
  by (induction bs) auto

lemma set_sort_cmp: "set (sort_cmp cmp xs) = set xs"
  by (induction xs) (simp_all add: set_insert_cmp)

lemma sorted_insert_cmp:
  assumes "sorted_wrt (\<lambda>a b. prob0 b \<le> prob0 a) bs"
  shows "sorted_wrt (\<lambda>a b. prob0 b \<le> prob0 a) (insert_cmp compareFn a bs)"
  using assms
proof (induction bs)
  case Nil
  then show ?case by simp
next
  case (Cons b bs)
  show ?case
  proof (cases "compareFn a b \<le> 0")
    case True
    then have "prob0 b \<le> prob0 a" by (simp add: compareFn_def)
    moreover have "\<forall>y\<in>set bs. prob0 y \<le> prob0 b" using Cons.prems by simp
    ultimately show ?thesis using True Cons.prems by fastforce
  next
    case False
    then have "prob0 a \<le> prob0 b" by (simp add: compareFn_def)
    then show ?thesis using False Cons by (auto simp: set_insert_cmp)
  qed
qed

lemma sorted_sort_cmp: "sorted_wrt (\<lambda>a b. prob0 b \<le> prob0 a) (sort_cmp compareFn xs)"
  by (induction xs) (simp_all add: sorted_insert_cmp)

text \<open>The first element of the sorted array has the largest probability of all.\<close>

lemma sort_cmp_head:
  assumes "sort_cmp compareFn xs = t # ts"
  shows "t \<in> set xs \<and> (\<forall>q\<in>set xs. prob0 q \<le> prob0 t)"
proof -
  have "set xs = insert t (set ts)" using set_sort_cmp[of compareFn xs] assms by simp
  moreover have "\<forall>q\<in>set ts. prob0 q \<le> prob0 t"
    using sorted_sort_cmp[of xs] assms by simp
  ultimately show ?thesis by auto
qed

lemma sort_cmp_Nil: "sort_cmp cmp xs = [] \<longleftrightarrow> xs = []"
  using set_sort_cmp[of cmp xs] by (metis set_empty)

lemma topPrediction_empty:
  "predictions d = None \<or> predictions d = Some [] \<Longrightarrow> topPrediction d = None"
  by (auto simp: topPrediction_def)

lemma topPrediction_nonempty:
  assumes "predictions d = Some ps" "ps \<noteq> []"
  shows "\<exists>t\<in>set ps. topPrediction d = Some t \<and> (\<forall>q\<in>set ps. prob0 q \<le> prob0 t)"
proof -
  obtain t ts where s: "sort_cmp compareFn ps = t # ts"
    using assms(2) sort_cmp_Nil[of compareFn ps] by (cases "sort_cmp compareFn ps") auto
  then have "topPrediction d = Some t" using assms(1) by (simp add: topPrediction_def)
  then show ?thesis using sort_cmp_head[OF s] by blast
qed

lemma default_tag_is_normal: "includes_str (toLowerCase ''Normal'') ''pneumonia'' = False"
  by (simp add: toLowerCase_def toLowerChar_def)

text \<open>
  Claim C10. A response whose prediction list is absent or empty gives the diagnosis
  Normal with confidence 0 and \<open>is_critical\<close> false. When the list is not empty, the
  confidence is the probability (0 when the entry has none) of an entry of the list that
  no other entry exceeds, namely the first of the sorted list, clamped to the interval
  from 0 to 1. In every case the confidence lies in that interval, and \<open>is_critical\<close>
  is true exactly when the diagnosis is Pneumonia.
\<close>

theorem analyzeImage_result:
  "((predictions d = None \<or> predictions d = Some []) \<longrightarrow>
      analyzeImage d = \<lparr>diagnosis = Normal, confidence = 0, is_critical = False\<rparr>)
   \<and> (\<forall>ps. predictions d = Some ps \<longrightarrow> ps \<noteq> [] \<longrightarrow>
        (\<exists>t\<in>set ps. (\<forall>q\<in>set ps. prob0 q \<le> prob0 t) \<and> topPrediction d = Some t
           \<and> confidence (analyzeImage d) = max 0 (min 1 (prob0 t))))
   \<and> 0 \<le> confidence (analyzeImage d) \<and> confidence (analyzeImage d) \<le> 1
   \<and> is_critical (analyzeImage d) = (diagnosis (analyzeImage d) = Pneumonia)"
proof (intro conjI impI allI)
  assume "predictions d = None \<or> predictions d = Some []"
  then have "topPrediction d = None" by (rule topPrediction_empty)
  then show "analyzeImage d = \<lparr>diagnosis = Normal, confidence = 0, is_critical = False\<rparr>"
    using default_tag_is_normal by (simp add: analyzeImage_def Let_def)
next
  fix ps assume "predictions d = Some ps" "ps \<noteq> []"
  then obtain t where t: "t \<in> set ps" "topPrediction d = Some t"
    "\<forall>q\<in>set ps. prob0 q \<le> prob0 t"
    using topPrediction_nonempty by blast
  then have "confidence (analyzeImage d) = max 0 (min 1 (prob0 t))"
    by (simp add: analyzeImage_def Let_def)
  then show "\<exists>t\<in>set ps. (\<forall>q\<in>set ps. prob0 q \<le> prob0 t) \<and> topPrediction d = Some t
           \<and> confidence (analyzeImage d) = max 0 (min 1 (prob0 t))"
    using t by blast
next
  show "0 \<le> confidence (analyzeImage d)" by (simp add: analyzeImage_def Let_def)
  show "confidence (analyzeImage d) \<le> 1" by (simp add: analyzeImage_def Let_def)
  show "is_critical (analyzeImage d) = (diagnosis (analyzeImage d) = Pneumonia)"
    by (simp add: analyzeImage_def Let_def)
qed

text \<open>
  A response without predictions, and one whose best entry has the probability 1.5 and a
  tag that contains the word in capitals.
\<close>

theorem analyzeImage_result_witness:
  "predictions no_predictions = None
   \<and> analyzeImage no_predictions
       = \<lparr>diagnosis = Normal, confidence = 0, is_critical = False\<rparr>
   \<and> confidence (analyzeImage two_predictions) = 1
   \<and> diagnosis (analyzeImage two_predictions) = Pneumonia
   \<and> is_critical (analyzeImage two_predictions) = True"
proof -
  have n: "predictions no_predictions = None"
    by (simp add: no_predictions_def)
  have e: "analyzeImage no_predictions
       = \<lparr>diagnosis = Normal, confidence = 0, is_critical = False\<rparr>"
    using analyzeImage_result [of no_predictions] n by simp
  let ?ps = "[\<lparr>tagName = Some ''Normal'', probability = Some (1 / 5)\<rparr>,
              \<lparr>tagName = Some ''Viral PNEUMONIA'', probability = Some (3 / 2)\<rparr>]"
  have p: "predictions two_predictions = Some ?ps" "?ps \<noteq> []"
    by (simp_all add: two_predictions_def)
  have l: "toLowerCase ''Viral PNEUMONIA'' = ''viral pneumonia''"
    by code_simp
  have d: "diagnosis (analyzeImage two_predictions) = Pneumonia"
    by (simp add: two_predictions_def analyzeImage_def topPrediction_def compareFn_def
        prob0_def l)
  have t: "\<exists>t\<in>set ?ps. (\<forall>q\<in>set ?ps. prob0 q \<le> prob0 t)
             \<and> topPrediction two_predictions = Some t
             \<and> confidence (analyzeImage two_predictions) = max 0 (min 1 (prob0 t))"
    and c: "is_critical (analyzeImage two_predictions)
             = (diagnosis (analyzeImage two_predictions) = Pneumonia)"
    using analyzeImage_result [of two_predictions] p by blast+
  from t have "confidence (analyzeImage two_predictions) = 1"
    by (auto simp add: prob0_def)
  then show ?thesis using n e d c by simp
qed

end
